theory Spec2Isabelle
  imports Complex_Main
begin

section \<open>Conventions\<close>

text \<open>
  Python floats are modelled as reals.  In the scheduler the arithmetic is that of the
  reals, without rounding, overflow or infinities; the one float effect that plain
  arithmetic on finite inputs produces there, a division of zero by a zero norm giving
  NaN, is modelled explicitly.  Where a value is fixed by the rounding of float64 (the
  working set limit), the rounding is modelled by \<open>float64_round\<close>.  Wall-clock instants
  (\<open>datetime\<close>) are reals, in seconds.  Dictionaries that the code iterates over are
  association lists in insertion order.
\<close>

section \<open>float64\<close>

text \<open>The integer nearest to a real, the even one of the two when it lies half way.\<close>

definition round_half_even :: "real \<Rightarrow> int" where
  "round_half_even m =
     (let f = \<lfloor>m\<rfloor>; d = m - of_int f
      in if d < 1 / 2 then f
         else if d > 1 / 2 then f + 1
         else if even f then f else f + 1)"

text \<open>
  IEEE 754 rounding to the nearest float64, ties to even: a real \<open>x\<close> with
  \<open>2^e \<le> |x| < 2^(e+1)\<close> is rounded to a multiple of \<open>2^(e-52)\<close>, and one below \<open>2^-1022\<close> to
  a multiple of \<open>2^-1074\<close>.  A result of magnitude \<open>2^1024\<close> stands for an infinity.
\<close>

definition float64_round :: "real \<Rightarrow> real" where
  "float64_round x =
     (if x = 0 then 0
      else
        let e = max \<lfloor>log 2 \<bar>x\<bar>\<rfloor> (- 1022);
            q = 2 powi (e - 52)
        in q * of_int (round_half_even (x / q)))"

text \<open>The product of two floats; \<open>None\<close> when it is infinite.\<close>

definition float64_mul :: "real \<Rightarrow> real \<Rightarrow> real option" where
  "float64_mul a b =
     (let r = float64_round (a * b)
      in if \<bar>r\<bar> \<ge> 2 ^ 1024 then None else Some r)"

text \<open>An \<open>int\<close> as an operand of float arithmetic; \<open>None\<close> when it raises \<open>OverflowError\<close>.\<close>

definition float_of_int :: "int \<Rightarrow> real option" where
  "float_of_int n =
     (let r = float64_round (real_of_int n)
      in if \<bar>r\<bar> \<ge> 2 ^ 1024 then None else Some r)"

section \<open>Telemetry: \<open>core/monitoring/system_monitor.py\<close>\<close>

text \<open>The two entries of psutil's io counters that the core reads.\<close>

record io_counters =
  read_bytes :: int
  write_bytes :: int

record ProcessMetrics =
  pid :: int
  name :: string
  cpu_percent :: real
  memory_percent :: real
  io_counters :: "io_counters option"
  thread_count :: int
  create_time :: real
  status :: string
  priority :: int

text \<open>
  \<open>SystemMetrics\<close>; the fields \<open>disk_io\<close>, \<open>network_io\<close> and \<open>boot_time\<close> are read by
  none of the modelled components and are left out.
\<close>

record SystemMetrics =
  timestamp :: real
  sys_cpu_percent :: real
  sys_memory_percent :: real
  processes :: "ProcessMetrics list"
  context_switches :: int
  interrupts :: int

text \<open>\<open>read_bytes + write_bytes if proc.io_counters else 0\<close>\<close>

definition io_total :: "ProcessMetrics \<Rightarrow> int" where
  "io_total proc =
     (case io_counters proc of
        None \<Rightarrow> 0
      | Some c \<Rightarrow> read_bytes c + write_bytes c)"

section \<open>The action synthesizer: \<open>core/optimization/synergy_core.py\<close>\<close>

datatype action_type =
  cpu_optimization | memory_optimization | io_optimization | thread_optimization

datatype param = PStr string | PInt int

record OptimizationAction =
  act_pid :: int
  action_type :: action_type
  parameters :: "(string \<times> param) list"
  act_timestamp :: real
  act_priority :: real

record SynergyCore =
  optimization_history :: "OptimizationAction list"
  action_threshold :: real
  last_optimization :: real
  cpu_threshold :: real
  memory_threshold :: real
  io_threshold :: int

text \<open>\<open>SynergyCore.__init__\<close>, constructed at instant \<open>now\<close>.\<close>

definition SynergyCore_init :: "real \<Rightarrow> SynergyCore" where
  "SynergyCore_init now =
     \<lparr>optimization_history = [], action_threshold = 0.7, last_optimization = now,
      cpu_threshold = 80, memory_threshold = 85, io_threshold = 1000000\<rparr>"

text \<open>
  What psutil answers: \<open>cpu_count\<close> is \<open>None\<close> when \<open>psutil.cpu_count()\<close> returns
  \<open>None\<close> or raises, \<open>memory_total\<close> is \<open>None\<close> when \<open>psutil.virtual_memory()\<close> raises.
\<close>

record psutil_env =
  cpu_count :: "nat option"
  memory_total :: "int option"

text \<open>
  The readings of the clock during one run: \<open>t_check\<close> in the cadence check, \<open>t_stamp\<close>
  for the timestamps written during the run (the code reads the clock for each of them;
  no property below depends on their differences), \<open>t_done\<close> at the end of the run.
\<close>

record clock =
  t_check :: real
  t_stamp :: real
  t_done :: real

definition should_optimize :: "SynergyCore \<Rightarrow> real \<Rightarrow> bool" where
  "should_optimize s now \<longleftrightarrow> now - last_optimization s \<ge> 0.5"

text \<open>\<open>str.lower\<close> on ASCII names.\<close>

definition lower_char :: "char \<Rightarrow> char" where
  "lower_char c =
     (case map_of (zip ''ABCDEFGHIJKLMNOPQRSTUVWXYZ'' ''abcdefghijklmnopqrstuvwxyz'') c of
        Some d \<Rightarrow> d
      | None \<Rightarrow> c)"

definition lower :: "string \<Rightarrow> string" where
  "lower s = map lower_char s"

definition is_process_optimizable :: "ProcessMetrics \<Rightarrow> bool" where
  "is_process_optimizable proc =
     (if pid proc < 100 then False
      else if lower (name proc) \<in> set [''system'', ''svchost.exe'', ''explorer.exe'']
      then False
      else True)"

definition calculate_optimal_affinity :: "psutil_env \<Rightarrow> ProcessMetrics \<Rightarrow> int" where
  "calculate_optimal_affinity env proc =
     (case cpu_count env of
        None \<Rightarrow> 0xFFFF
      | Some c \<Rightarrow>
          if cpu_percent proc > 80 then 2 ^ c - 1
          else 2 ^ (c div 2) - 1)"

text \<open>Python's \<open>int(x)\<close> on a float truncates towards zero.\<close>

definition py_int :: "real \<Rightarrow> int" where
  "py_int x = (if x \<ge> 0 then \<lfloor>x\<rfloor> else \<lceil>x\<rceil>)"

text \<open>
  \<open>int(proc.memory_percent * memory.total * factor)\<close> in float64, the products rounded one
  after the other.  An int too large for a float and \<open>int\<close> of an infinite product raise
  \<open>OverflowError\<close>, which is caught: the limit is then 0.
\<close>

definition working_set_product :: "real \<Rightarrow> int \<Rightarrow> real \<Rightarrow> int" where
  "working_set_product percent mem_total factor =
     (case float_of_int mem_total of
        None \<Rightarrow> 0
      | Some t \<Rightarrow>
          (case float64_mul percent t of
             None \<Rightarrow> 0
           | Some x \<Rightarrow>
               (case float64_mul x factor of
                  None \<Rightarrow> 0
                | Some y \<Rightarrow> py_int y)))"

definition calculate_working_set_limit :: "psutil_env \<Rightarrow> ProcessMetrics \<Rightarrow> int" where
  "calculate_working_set_limit env proc =
     (case memory_total env of
        None \<Rightarrow> 0
      | Some mem_total \<Rightarrow>
          if memory_percent proc > 80
          then working_set_product (memory_percent proc) mem_total 0.5
          else working_set_product (memory_percent proc) mem_total 0.75)"

text \<open>
  \<open>sorted(procs, key=..., reverse=True)\<close> is stable and descending; so is the stable
  insertion sort on the negated key.
\<close>

definition sorted_desc :: "(ProcessMetrics \<Rightarrow> real) \<Rightarrow> ProcessMetrics list \<Rightarrow> ProcessMetrics list" where
  "sorted_desc key ps = sort_key (\<lambda>p. - key p) ps"

definition optimize_cpu_usage ::
  "psutil_env \<Rightarrow> real \<Rightarrow> SystemMetrics \<Rightarrow> OptimizationAction list" where
  "optimize_cpu_usage env now m =
     concat (map (\<lambda>proc.
        if cpu_percent proc > 50
        then [\<lparr>act_pid = pid proc, action_type = cpu_optimization,
               parameters = [(''priority_class'', PStr ''BELOW_NORMAL''),
                             (''affinity_mask'', PInt (calculate_optimal_affinity env proc))],
               act_timestamp = now, act_priority = cpu_percent proc / 100\<rparr>]
        else [])
      (take 5 (sorted_desc cpu_percent (processes m))))"

definition optimize_memory_usage ::
  "psutil_env \<Rightarrow> real \<Rightarrow> SystemMetrics \<Rightarrow> OptimizationAction list" where
  "optimize_memory_usage env now m =
     concat (map (\<lambda>proc.
        if memory_percent proc > 50
        then [\<lparr>act_pid = pid proc, action_type = memory_optimization,
               parameters = [(''priority_class'', PStr ''BELOW_NORMAL''),
                             (''working_set_limit'', PInt (calculate_working_set_limit env proc))],
               act_timestamp = now, act_priority = memory_percent proc / 100\<rparr>]
        else [])
      (take 5 (sorted_desc memory_percent (processes m))))"

definition optimize_process ::
  "SynergyCore \<Rightarrow> real \<Rightarrow> ProcessMetrics \<Rightarrow> OptimizationAction list" where
  "optimize_process s now proc =
     (if io_counters proc \<noteq> None \<and> io_total proc > io_threshold s
      then [\<lparr>act_pid = pid proc, action_type = io_optimization,
             parameters = [(''priority_class'', PStr ''BELOW_NORMAL''),
                           (''io_priority'', PStr ''LOW'')],
             act_timestamp = now, act_priority = 0.8\<rparr>]
      else [])
     @
     (if thread_count proc > 100
      then [\<lparr>act_pid = pid proc, action_type = thread_optimization,
             parameters = [(''priority_class'', PStr ''BELOW_NORMAL''),
                           (''thread_limit'', PInt 100)],
             act_timestamp = now, act_priority = 0.7\<rparr>]
      else [])"

definition analyze_system_state ::
  "psutil_env \<Rightarrow> SynergyCore \<Rightarrow> real \<Rightarrow> SystemMetrics \<Rightarrow> OptimizationAction list" where
  "analyze_system_state env s now m =
     (if sys_cpu_percent m > cpu_threshold s then optimize_cpu_usage env now m else [])
     @ (if sys_memory_percent m > memory_threshold s then optimize_memory_usage env now m else [])
     @ concat (map (\<lambda>proc.
          if is_process_optimizable proc then optimize_process s now proc else [])
        (processes m))"

subsection \<open>Applying an action through the Win32 interface\<close>

text \<open>
  The operating system is a state machine of any type \<open>'os\<close>: a call returns the next
  state and whether it returned normally (\<open>False\<close>: it raised).  The handle that
  \<open>OpenProcess\<close> returns is identified with the pid it was opened for.
\<close>

datatype win32_call =
  OpenProcess int
| SetPriorityClass int
| SetProcessAffinityMask int int
| SetProcessWorkingSetSizeEx int int
| CloseHandle int

type_synonym 'os win32 = "'os \<Rightarrow> win32_call \<Rightarrow> 'os \<times> bool"

text \<open>
  The statements of \<open>_apply_optimization\<close> between \<open>try\<close> and the append, in order:
  \<open>Some c\<close> is a call of the interface, \<open>None\<close> a statement that raises by itself
  (a missing key of \<open>parameters\<close>, a value of the wrong type).
\<close>

definition priority_class_calls :: "OptimizationAction \<Rightarrow> win32_call option list" where
  "priority_class_calls a =
     (case map_of (parameters a) ''priority_class'' of
        None \<Rightarrow> [None]
      | Some v \<Rightarrow> if v = PStr ''BELOW_NORMAL'' then [Some (SetPriorityClass (act_pid a))] else [])"

definition script :: "OptimizationAction \<Rightarrow> win32_call option list" where
  "script a =
     Some (OpenProcess (act_pid a)) #
     (case action_type a of
        cpu_optimization \<Rightarrow>
          priority_class_calls a @
          (case map_of (parameters a) ''affinity_mask'' of
             Some (PInt m) \<Rightarrow> [Some (SetProcessAffinityMask (act_pid a) m)]
           | _ \<Rightarrow> [None])
      | memory_optimization \<Rightarrow>
          priority_class_calls a @
          (case map_of (parameters a) ''working_set_limit'' of
             Some (PInt limit) \<Rightarrow>
               if limit > 0 then [Some (SetProcessWorkingSetSizeEx (act_pid a) limit)] else []
           | _ \<Rightarrow> [None])
      | io_optimization \<Rightarrow> priority_class_calls a
      | thread_optimization \<Rightarrow> priority_class_calls a)
     @ [Some (CloseHandle (act_pid a))]"

text \<open>Runs the statements in order; the first that raises ends the run.\<close>

fun run_script :: "'os win32 \<Rightarrow> 'os \<Rightarrow> win32_call option list \<Rightarrow> 'os \<times> bool" where
  "run_script w os [] = (os, True)"
| "run_script w os (None # cs) = (os, False)"
| "run_script w os (Some c # cs) =
     (case w os c of
        (os', True) \<Rightarrow> run_script w os' cs
      | (os', False) \<Rightarrow> (os', False))"

definition apply_optimization ::
  "'os win32 \<Rightarrow> SynergyCore \<times> 'os \<Rightarrow> OptimizationAction \<Rightarrow> SynergyCore \<times> 'os" where
  "apply_optimization w st a =
     (case st of (s, os) \<Rightarrow>
        (case run_script w os (script a) of
           (os', True) \<Rightarrow> (s\<lparr>optimization_history := optimization_history s @ [a]\<rparr>, os')
         | (os', False) \<Rightarrow> (s, os')))"

text \<open>The loop of \<open>process\<close> over the candidate actions.\<close>

definition apply_batch ::
  "'os win32 \<Rightarrow> SynergyCore \<times> 'os \<Rightarrow> OptimizationAction list \<Rightarrow> SynergyCore \<times> 'os" where
  "apply_batch w st actions =
     fold (\<lambda>a st. if act_priority a \<ge> action_threshold (fst st)
                  then apply_optimization w st a else st) actions st"

definition process ::
  "'os win32 \<Rightarrow> psutil_env \<Rightarrow> clock \<Rightarrow> SynergyCore \<times> 'os \<Rightarrow> SystemMetrics \<Rightarrow> SynergyCore \<times> 'os" where
  "process w env clk st m =
     (if \<not> should_optimize (fst st) (t_check clk) then st
      else
        (case apply_batch w st (analyze_system_state env (fst st) (t_stamp clk) m) of
           (s', os') \<Rightarrow> (s'\<lparr>last_optimization := t_done clk\<rparr>, os')))"

text \<open>
  What a call of \<open>process\<close> returns, with the state it leaves: the bare \<open>return\<close> of the
  cadence check, the end of the body and the \<open>except\<close> clause all return \<open>None\<close>; no path
  returns a list.
\<close>

datatype py_value = PyNone | PyList "OptimizationAction list"

definition process_call ::
  "'os win32 \<Rightarrow> psutil_env \<Rightarrow> clock \<Rightarrow> SynergyCore \<times> 'os \<Rightarrow> SystemMetrics
     \<Rightarrow> py_value \<times> (SynergyCore \<times> 'os)" where
  "process_call w env clk st m =
     (if \<not> should_optimize (fst st) (t_check clk) then (PyNone, st)
      else
        (case apply_batch w st (analyze_system_state env (fst st) (t_stamp clk) m) of
           (s', os') \<Rightarrow> (PyNone, (s'\<lparr>last_optimization := t_done clk\<rparr>, os'))))"

definition get_optimization_history :: "SynergyCore \<Rightarrow> OptimizationAction list" where
  "get_optimization_history s = optimization_history s"

subsection \<open>What a batch does, attempt by attempt\<close>

text \<open>
  Every action of the list is run against the operating system in turn, from the state
  its predecessor left, whether that predecessor succeeded or raised; the result pairs
  each action with its outcome and gives the final state of the operating system.
\<close>

fun batch_outcomes ::
  "'os win32 \<Rightarrow> 'os \<Rightarrow> OptimizationAction list \<Rightarrow> (OptimizationAction \<times> bool) list \<times> 'os" where
  "batch_outcomes w os [] = ([], os)"
| "batch_outcomes w os (a # as) =
     (case run_script w os (script a) of
        (os', ok) \<Rightarrow>
          (case batch_outcomes w os' as of
             (rs, os'') \<Rightarrow> ((a, ok) # rs, os'')))"

section \<open>The quantum scheduler: \<open>core/quantum/scheduler.py\<close>\<close>

subsection \<open>numpy values\<close>

text \<open>
  A numpy float is a real or NaN.  A state vector is an array of reals, or an array all
  of whose components are NaN: dividing a non-empty zero vector by its norm gives NaN in
  every component (numpy warns and goes on, it does not raise), and every operation with
  such an array gives such an array again.  All state vectors of one scheduler have
  \<open>num_qubits\<close> components, so the component-wise operations meet arrays of one length.
\<close>

datatype npfloat = Num real | NaN

datatype ndarray = Arr "real list" | NaNs

fun vsub :: "ndarray \<Rightarrow> ndarray \<Rightarrow> ndarray" where
  "vsub (Arr u) (Arr v) = Arr (map2 (-) u v)"
| "vsub _ _ = NaNs"

fun vadd :: "ndarray \<Rightarrow> ndarray \<Rightarrow> ndarray" where
  "vadd (Arr u) (Arr v) = Arr (map2 (+) u v)"
| "vadd _ _ = NaNs"

fun vscale :: "real \<Rightarrow> ndarray \<Rightarrow> ndarray" where
  "vscale c (Arr v) = Arr (map (\<lambda>x. c * x) v)"
| "vscale c NaNs = NaNs"

text \<open>\<open>np.linalg.norm\<close> of a vector.\<close>

definition l2_norm :: "real list \<Rightarrow> real" where
  "l2_norm v = sqrt (sum_list (map (\<lambda>x. x * x) v))"

text \<open>\<open>a /= np.linalg.norm(a)\<close>, with no test of the norm.\<close>

fun normalise :: "ndarray \<Rightarrow> ndarray" where
  "normalise NaNs = NaNs"
| "normalise (Arr v) =
     (if v \<noteq> [] \<and> l2_norm v = 0 then NaNs
      else Arr (map (\<lambda>x. x / l2_norm v) v))"

text \<open>\<open>np.mean\<close>; the mean of an empty array is NaN.\<close>

fun np_mean :: "ndarray \<Rightarrow> npfloat" where
  "np_mean NaNs = NaN"
| "np_mean (Arr v) = (if v = [] then NaN else Num (sum_list v / real (length v)))"

subsection \<open>State\<close>

record usage =
  cpu :: real
  memory :: real
  io :: real

record ProcessState =
  st_pid :: int
  st_priority :: npfloat
  quantum_state :: ndarray
  last_update :: real
  resource_usage :: usage

record history_entry =
  h_timestamp :: real
  h_temperature :: real
  priorities :: "(int \<times> npfloat) list"

record QuantumScheduler =
  num_qubits :: nat
  process_states :: "(int \<times> ProcessState) list"
  qs_optimization_history :: "history_entry list"
  qs_last_optimization :: real
  temperature :: real
  annealing_rate :: real
  min_temperature :: real

definition QuantumScheduler_init :: "nat \<Rightarrow> real \<Rightarrow> QuantumScheduler" where
  "QuantumScheduler_init k now =
     \<lparr>num_qubits = k, process_states = [], qs_optimization_history = [],
      qs_last_optimization = now, temperature = 1, annealing_rate = 0.95,
      min_temperature = 0.01\<rparr>"

definition usage_of :: "ProcessMetrics \<Rightarrow> usage" where
  "usage_of proc =
     \<lparr>cpu = cpu_percent proc, memory = memory_percent proc, io = real_of_int (io_total proc)\<rparr>"

text \<open>
  \<open>_update_process_states\<close>.  \<open>rand p k\<close> is component \<open>k\<close> of the draw
  \<open>np.random.rand(num_qubits)\<close> made when pid \<open>p\<close> is first seen.
\<close>

definition update_process_state ::
  "(int \<Rightarrow> nat \<Rightarrow> real) \<Rightarrow> real \<Rightarrow> QuantumScheduler \<Rightarrow> ProcessMetrics \<Rightarrow> QuantumScheduler" where
  "update_process_state rand ts s proc =
     (case map_of (process_states s) (pid proc) of
        None \<Rightarrow>
          s\<lparr>process_states := process_states s @
              [(pid proc,
                \<lparr>st_pid = pid proc, st_priority = Num 0,
                 quantum_state = Arr (map (rand (pid proc)) [0 ..< num_qubits s]),
                 last_update = ts, resource_usage = usage_of proc\<rparr>)]\<rparr>
      | Some _ \<Rightarrow>
          s\<lparr>process_states :=
              map (\<lambda>(k, st). if k = pid proc
                     then (k, st\<lparr>last_update := ts, resource_usage := usage_of proc\<rparr>)
                     else (k, st))
                (process_states s)\<rparr>)"

definition update_process_states ::
  "(int \<Rightarrow> nat \<Rightarrow> real) \<Rightarrow> QuantumScheduler \<Rightarrow> SystemMetrics \<Rightarrow> QuantumScheduler" where
  "update_process_states rand s m =
     fold (\<lambda>proc s. update_process_state rand (timestamp m) s proc) (processes m) s"

definition qs_should_optimize :: "QuantumScheduler \<Rightarrow> real \<Rightarrow> bool" where
  "qs_should_optimize s now \<longleftrightarrow> now - qs_last_optimization s \<ge> 1"

subsection \<open>The coupling matrix\<close>

definition calculate_interaction :: "ProcessState \<Rightarrow> ProcessState \<Rightarrow> real" where
  "calculate_interaction state1 state2 =
     (let cpu_diff = \<bar>cpu (resource_usage state1) - cpu (resource_usage state2)\<bar>;
          mem_diff = \<bar>memory (resource_usage state1) - memory (resource_usage state2)\<bar>;
          io_diff = \<bar>io (resource_usage state1) - io (resource_usage state2)\<bar>;
          total_diff = (cpu_diff + mem_diff + io_diff) / 3
      in total_diff)"

text \<open>\<open>h[i, j] = x\<close> on a matrix held as a list of rows.\<close>

definition set_entry :: "real list list \<Rightarrow> nat \<Rightarrow> nat \<Rightarrow> real \<Rightarrow> real list list" where
  "set_entry h i j x = h[i := (h ! i)[j := x]]"

definition create_hamiltonian :: "ProcessState list \<Rightarrow> real list list" where
  "create_hamiltonian states =
     (let n = length states
      in fold (\<lambda>i h.
           fold (\<lambda>j h.
             let interaction = calculate_interaction (states ! i) (states ! j)
             in set_entry (set_entry h i j interaction) j i interaction)
           [i + 1 ..< n] h)
         [0 ..< n] (replicate n (replicate n 0)))"

subsection \<open>Annealing\<close>

text \<open>The inner loop over \<open>j\<close>: the force on process \<open>i\<close>.\<close>

definition force :: "nat \<Rightarrow> real list list \<Rightarrow> ndarray list \<Rightarrow> nat \<Rightarrow> ndarray" where
  "force k h current_states i =
     fold (\<lambda>j f. if i \<noteq> j
                  then vadd f (vscale (h ! i ! j) (vsub (current_states ! j) (current_states ! i)))
                  else f)
       [0 ..< length current_states] (Arr (replicate k 0))"

text \<open>The body of the loop over \<open>i\<close>: force, update, division by the norm.\<close>

definition evolve :: "nat \<Rightarrow> real \<Rightarrow> real list list \<Rightarrow> ndarray list \<Rightarrow> nat \<Rightarrow> ndarray list" where
  "evolve k t h current_states i =
     current_states[i := normalise (vadd (current_states ! i)
                           (vscale t (force k h current_states i)))]"

text \<open>One annealing step: the loop over \<open>i\<close>, each process seeing the updates before it.\<close>

definition annealing_step :: "nat \<Rightarrow> real \<Rightarrow> real list list \<Rightarrow> ndarray list \<Rightarrow> ndarray list" where
  "annealing_step k t h current_states =
     fold (\<lambda>i cur. evolve k t h cur i) [0 ..< length current_states] current_states"

definition quantum_annealing ::
  "nat \<Rightarrow> real \<Rightarrow> real list list \<Rightarrow> ProcessState list \<Rightarrow> ndarray list" where
  "quantum_annealing k t h states =
     (annealing_step k t h ^^ 100) (map quantum_state states)"

definition calculate_priority :: "ndarray \<Rightarrow> usage \<Rightarrow> npfloat" where
  "calculate_priority q ru =
     (let quantum_score = np_mean q;
          resource_score = (cpu ru + memory ru) / 2
      in case quantum_score of
           NaN \<Rightarrow> NaN
         | Num qs \<Rightarrow> Num (0.7 * qs + 0.3 * resource_score))"

text \<open>
  The loop over \<open>zip(states, optimized_states)\<close>: the states are the objects held by
  \<open>process_states\<close>, so the assignments change the dictionary's values in place.
\<close>

fun write_back :: "(int \<times> ProcessState) list \<Rightarrow> ndarray list \<Rightarrow> (int \<times> ProcessState) list" where
  "write_back [] qs = []"
| "write_back sts [] = sts"
| "write_back ((k, st) # sts) (q # qs) =
     (k, st\<lparr>quantum_state := q, st_priority := calculate_priority q (resource_usage st)\<rparr>)
     # write_back sts qs"

text \<open>\<open>_optimize_scheduling\<close>; \<open>t_log\<close> and \<open>t_end\<close> are its two readings of the clock.\<close>

definition optimize_scheduling :: "real \<Rightarrow> real \<Rightarrow> QuantumScheduler \<Rightarrow> QuantumScheduler" where
  "optimize_scheduling t_log t_end s =
     (let states = map snd (process_states s)
      in if states = [] then s
         else
           let hamiltonian = create_hamiltonian states;
               optimized_states = quantum_annealing (num_qubits s) (temperature s) hamiltonian states;
               new_states = write_back (process_states s) optimized_states
           in s\<lparr>process_states := new_states,
                qs_optimization_history := qs_optimization_history s @
                  [\<lparr>h_timestamp = t_log, h_temperature = temperature s,
                    priorities = map (\<lambda>(k, st). (st_pid st, st_priority st)) new_states\<rparr>],
                temperature := max (min_temperature s) (temperature s * annealing_rate s),
                qs_last_optimization := t_end\<rparr>)"

text \<open>\<open>update\<close>; \<open>t_check\<close> is the reading of the clock in \<open>_should_optimize\<close>.\<close>

definition QuantumScheduler_update ::
  "(int \<Rightarrow> nat \<Rightarrow> real) \<Rightarrow> clock \<Rightarrow> QuantumScheduler \<Rightarrow> SystemMetrics \<Rightarrow> QuantumScheduler" where
  "QuantumScheduler_update rand clk s m =
     (let s1 = update_process_states rand s m
      in if qs_should_optimize s1 (t_check clk)
         then optimize_scheduling (t_stamp clk) (t_done clk) s1
         else s1)"

text \<open>\<open>return self.process_states.get(pid, None)\<close>\<close>

definition get_process_priority :: "QuantumScheduler \<Rightarrow> int \<Rightarrow> ProcessState option" where
  "get_process_priority s p = map_of (process_states s) p"

section \<open>The continual learner: \<open>ai/models/continual_learner.py\<close>\<close>

record ProcessFeatures =
  f_pid :: int
  cpu_usage :: real
  memory_usage :: real
  io_usage :: real
  f_thread_count :: int
  f_priority :: int
  f_timestamp :: real

text \<open>
  torch, seen from the learner.  \<open>'m\<close> is the parameters of a \<open>ProcessPredictor\<close>, \<open>'o\<close>
  the moments an Adam optimizer keeps.  \<open>init_model n\<close> is the randomly initialised
  model that the \<open>n\<close>-th construction gives; \<open>forward\<close> is the model's output on a window
  of feature rows; \<open>train_step\<close> is one forward and backward pass and optimizer step at a
  learning rate.  The last two are \<open>None\<close> when torch raises.
\<close>

record ('m, 'o) torch =
  init_model :: "nat \<Rightarrow> 'm"
  init_adam :: 'o
  forward :: "'m \<Rightarrow> real list list \<Rightarrow> (real \<times> real \<times> real) option"
  train_step :: "'m \<Rightarrow> 'o \<Rightarrow> real \<Rightarrow> real list list \<Rightarrow> real \<times> real \<times> real \<Rightarrow> ('m \<times> 'o) option"

text \<open>An \<open>optim.Adam\<close>: the \<open>lr\<close> of its parameter group and its moments.\<close>

record 'o optimizer =
  lr :: real
  adam_state :: 'o

text \<open>
  The learner's state.  The two river detectors are outside the model: what they answer
  in a tick is an input of that tick.  \<open>constructed\<close> counts the models constructed so
  far.  Constructing a model or an optimizer is taken to succeed.
\<close>

record ('m, 'o) ContinualLearner =
  process_predictors :: "(int \<times> 'm) list"
  optimizers :: "(int \<times> 'o optimizer) list"
  feature_history :: "(int \<times> ProcessFeatures list) list"
  learning_rate :: real
  batch_size :: nat
  sequence_length :: nat
  constructed :: nat

definition ContinualLearner_init :: "('m, 'o) ContinualLearner" where
  "ContinualLearner_init =
     \<lparr>process_predictors = [], optimizers = [], feature_history = [],
      learning_rate = 0.001, batch_size = 32, sequence_length = 10, constructed = 0\<rparr>"

text \<open>\<open>d[k] = v\<close> on a dictionary in insertion order.\<close>

fun dict_set :: "'k \<Rightarrow> 'v \<Rightarrow> ('k \<times> 'v) list \<Rightarrow> ('k \<times> 'v) list" where
  "dict_set k v [] = [(k, v)]"
| "dict_set k v ((k', v') # kvs) =
     (if k' = k then (k, v) # kvs else (k', v') # dict_set k v kvs)"

definition extract_features :: "ProcessMetrics \<Rightarrow> SystemMetrics \<Rightarrow> ProcessFeatures" where
  "extract_features proc m =
     \<lparr>f_pid = pid proc, cpu_usage = cpu_percent proc, memory_usage = memory_percent proc,
      io_usage = real_of_int (io_total proc), f_thread_count = thread_count proc,
      f_priority = priority proc, f_timestamp = timestamp m\<rparr>"

text \<open>One row of the input tensor.\<close>

definition feature_row :: "ProcessFeatures \<Rightarrow> real list" where
  "feature_row f =
     [cpu_usage f, memory_usage f, io_usage f, real_of_int (f_thread_count f),
      real_of_int (f_priority f)]"

text \<open>
  \<open>_train_process_model\<close>: every exception is caught and leaves the learner as it was.
  The target is the last row of \<open>target_data\<close>, which is empty for a window of fewer
  than two samples.
\<close>

definition train_process_model ::
  "('m, 'o) torch \<Rightarrow> ('m, 'o) ContinualLearner \<Rightarrow> int \<Rightarrow> ('m, 'o) ContinualLearner" where
  "train_process_model t s p =
     (case map_of (feature_history s) p of
        None \<Rightarrow> s
      | Some features \<Rightarrow>
          if length features < 2 then s
          else
            (case (map_of (process_predictors s) p, map_of (optimizers s) p) of
               (Some mdl, Some opt) \<Rightarrow>
                 (case train_step t mdl (adam_state opt) (lr opt) (map feature_row features)
                         (cpu_usage (last features), memory_usage (last features),
                          io_usage (last features)) of
                    None \<Rightarrow> s
                  | Some (mdl', moments') \<Rightarrow>
                      s\<lparr>process_predictors := dict_set p mdl' (process_predictors s),
                        optimizers := dict_set p (opt\<lparr>adam_state := moments'\<rparr>) (optimizers s)\<rparr>)
             | _ \<Rightarrow> s))"

definition update_process_model ::
  "('m, 'o) torch \<Rightarrow> ('m, 'o) ContinualLearner \<Rightarrow> int \<Rightarrow> ProcessFeatures
     \<Rightarrow> ('m, 'o) ContinualLearner" where
  "update_process_model t s p features =
     (let s1 =
        (if map_of (process_predictors s) p = None
         then s\<lparr>process_predictors :=
                   dict_set p (init_model t (constructed s)) (process_predictors s),
                 optimizers :=
                   dict_set p \<lparr>lr = learning_rate s, adam_state = init_adam t\<rparr> (optimizers s),
                 feature_history := dict_set p [] (feature_history s),
                 constructed := Suc (constructed s)\<rparr>
         else s)
      in case map_of (feature_history s1) p of
           None \<Rightarrow> s1
         | Some h \<Rightarrow>
             let h1 = h @ [features];
                 h2 = (if length h1 > sequence_length s1 then tl h1 else h1);
                 s2 = s1\<lparr>feature_history := dict_set p h2 (feature_history s1)\<rparr>
             in if length h2 \<ge> sequence_length s2 then train_process_model t s2 p else s2)"

text \<open>
  \<open>_handle_drift\<close>: the loop over the pids of \<open>process_predictors\<close>; a pid without a
  feature window raises \<open>KeyError\<close> at \<open>clear\<close>, which ends the loop.
\<close>

fun handle_drift_loop ::
  "('m, 'o) torch \<Rightarrow> ('m, 'o) ContinualLearner \<Rightarrow> int list \<Rightarrow> ('m, 'o) ContinualLearner" where
  "handle_drift_loop t s [] = s"
| "handle_drift_loop t s (p # ps) =
     (let s1 = s\<lparr>process_predictors :=
                   dict_set p (init_model t (constructed s)) (process_predictors s),
                 optimizers :=
                   dict_set p \<lparr>lr = learning_rate s, adam_state = init_adam t\<rparr> (optimizers s),
                 constructed := Suc (constructed s)\<rparr>
      in case map_of (feature_history s1) p of
           None \<Rightarrow> s1
         | Some h \<Rightarrow>
             handle_drift_loop t (s1\<lparr>feature_history := dict_set p [] (feature_history s1)\<rparr>) ps)"

definition handle_drift ::
  "('m, 'o) torch \<Rightarrow> ('m, 'o) ContinualLearner \<Rightarrow> ('m, 'o) ContinualLearner" where
  "handle_drift t s = handle_drift_loop t s (map fst (process_predictors s))"

text \<open>
  \<open>_detect_drift\<close>; \<open>drift\<close> is what \<open>drift_detector.drift_detected\<close> reads after the
  update of the detector, \<open>None\<close> when the detector raised.
\<close>

definition detect_drift ::
  "('m, 'o) torch \<Rightarrow> ('m, 'o) ContinualLearner \<Rightarrow> bool option \<Rightarrow> ('m, 'o) ContinualLearner" where
  "detect_drift t s drift =
     (case drift of
        Some True \<Rightarrow> handle_drift t s
      | _ \<Rightarrow> s)"

definition handle_anomaly :: "('m, 'o) ContinualLearner \<Rightarrow> ('m, 'o) ContinualLearner" where
  "handle_anomaly s =
     (let rate = learning_rate s * 2
      in s\<lparr>learning_rate := rate,
           optimizers := map (\<lambda>(k, opt). (k, opt\<lparr>lr := rate\<rparr>)) (optimizers s)\<rparr>)"

text \<open>
  \<open>_detect_anomalies\<close>; \<open>score\<close> is what \<open>anomaly_detector.score_one\<close> returns after
  \<open>learn_one\<close>, \<open>None\<close> when the detector raised.
\<close>

definition detect_anomalies ::
  "('m, 'o) ContinualLearner \<Rightarrow> real option \<Rightarrow> ('m, 'o) ContinualLearner" where
  "detect_anomalies s score =
     (case score of
        None \<Rightarrow> s
      | Some x \<Rightarrow> if x > 0.8 then handle_anomaly s else s)"

definition ContinualLearner_update ::
  "('m, 'o) torch \<Rightarrow> ('m, 'o) ContinualLearner \<Rightarrow> SystemMetrics \<Rightarrow> bool option \<Rightarrow> real option
     \<Rightarrow> ('m, 'o) ContinualLearner" where
  "ContinualLearner_update t s m drift score =
     (let s1 = fold (\<lambda>proc s. update_process_model t s (pid proc) (extract_features proc m))
                 (processes m) s;
          s2 = detect_drift t s1 drift
      in detect_anomalies s2 score)"

text \<open>\<open>predict_process_metrics\<close>: \<open>None\<close> also when a lookup or torch raises.\<close>

definition predict_process_metrics ::
  "('m, 'o) torch \<Rightarrow> ('m, 'o) ContinualLearner \<Rightarrow> int \<Rightarrow> (real \<times> real \<times> real) option" where
  "predict_process_metrics t s p =
     (case map_of (process_predictors s) p of
        None \<Rightarrow> None
      | Some mdl \<Rightarrow>
          (case map_of (feature_history s) p of
             None \<Rightarrow> None
           | Some features \<Rightarrow>
               if features = [] then None
               else forward t mdl (map feature_row features)))"

section \<open>Predicates of the statements\<close>

text \<open>An \<open>n\<close> by \<open>n\<close> matrix.\<close>

definition dims :: "nat \<Rightarrow> real list list \<Rightarrow> bool" where
  "dims n h \<longleftrightarrow> length h = n \<and> (\<forall>r \<in> set h. length r = n)"

text \<open>
  What a division by the norm leaves: an array of NaN, an empty array
  (\<open>num_qubits = 0\<close>), or a vector whose L2 norm is within \<open>1e-6\<close> of one.
\<close>

definition unit_or_nan :: "ndarray \<Rightarrow> bool" where
  "unit_or_nan a =
     (case a of NaNs \<Rightarrow> True | Arr v \<Rightarrow> v = [] \<or> \<bar>l2_norm v - 1\<bar> < 1 / 10 ^ 6)"

text \<open>Every pid with a predictor has a feature window, as \<open>_update_process_model\<close> creates them.\<close>

definition predictor_windows :: "('m, 'o) ContinualLearner \<Rightarrow> bool" where
  "predictor_windows s =
     list_all (\<lambda>(p, mdl). map_of (feature_history s) p \<noteq> None) (process_predictors s)"

text \<open>
  A pid as a drift reset leaves it: an empty window, a new optimizer at the given rate
  with fresh moments, and a model constructed after the \<open>c\<close> models that existed before.
  \<open>fresh_model\<close> is the part of it that concerns the optimizer and the model.
\<close>

definition reinitialised ::
  "('m, 'o) torch \<Rightarrow> nat \<Rightarrow> real \<Rightarrow> ('m, 'o) ContinualLearner \<Rightarrow> int \<Rightarrow> bool" where
  "reinitialised t c rate s p \<longleftrightarrow>
     map_of (feature_history s) p = Some []
     \<and> map_of (optimizers s) p = Some \<lparr>lr = rate, adam_state = init_adam t\<rparr>
     \<and> (\<exists>n \<in> {c ..< constructed s}. map_of (process_predictors s) p = Some (init_model t n))"

definition fresh_model ::
  "('m, 'o) torch \<Rightarrow> nat \<Rightarrow> real \<Rightarrow> ('m, 'o) ContinualLearner \<Rightarrow> int \<Rightarrow> bool" where
  "fresh_model t c rate s p \<longleftrightarrow>
     map_of (optimizers s) p = Some \<lparr>lr = rate, adam_state = init_adam t\<rparr>
     \<and> (\<exists>n \<in> {c ..< constructed s}. map_of (process_predictors s) p = Some (init_model t n))"

section \<open>Concrete inputs\<close>

definition excluded_proc :: ProcessMetrics where
  "excluded_proc =
     \<lparr>pid = 50, name = ''System'', cpu_percent = 92, memory_percent = 40,
      io_counters = None, thread_count = 10, create_time = 0, status = ''running'',
      priority = 0\<rparr>"

definition excluded_snapshot :: SystemMetrics where
  "excluded_snapshot =
     \<lparr>timestamp = 1, sys_cpu_percent = 95, sys_memory_percent = 40,
      processes = [excluded_proc], context_switches = 0, interrupts = 0\<rparr>"

definition four_cores :: psutil_env where
  "four_cores = \<lparr>cpu_count = Some 4, memory_total = Some 1000\<rparr>"

text \<open>A run that starts a quarter of a second after the instant 1.\<close>

definition cooldown_clock :: clock where
  "cooldown_clock = \<lparr>t_check = 1.25, t_stamp = 1.25, t_done = 1.5\<rparr>"

text \<open>An operating system on which every call succeeds, and one that refuses pid 500.\<close>

definition ok_os :: "unit win32" where
  "ok_os os c = (os, True)"

definition deny_500 :: "unit win32" where
  "deny_500 os c = (os, c \<noteq> OpenProcess 500)"

definition threads_proc :: "int \<Rightarrow> ProcessMetrics" where
  "threads_proc p =
     \<lparr>pid = p, name = ''worker.exe'', cpu_percent = 5, memory_percent = 5,
      io_counters = None, thread_count = 150, create_time = 0, status = ''running'',
      priority = 0\<rparr>"

definition threads_snapshot :: SystemMetrics where
  "threads_snapshot =
     \<lparr>timestamp = 1, sys_cpu_percent = 10, sys_memory_percent = 10,
      processes = [threads_proc 500, threads_proc 600], context_switches = 0,
      interrupts = 0\<rparr>"

definition thread_action :: "int \<Rightarrow> real \<Rightarrow> OptimizationAction" where
  "thread_action p now =
     \<lparr>act_pid = p, action_type = thread_optimization,
      parameters = [(''priority_class'', PStr ''BELOW_NORMAL''), (''thread_limit'', PInt 100)],
      act_timestamp = now, act_priority = 0.7\<rparr>"

text \<open>Draws of \<open>np.random.rand\<close>, and snapshots of quiet worker processes.\<close>

definition half_rand :: "int \<Rightarrow> nat \<Rightarrow> real" where
  "half_rand p k = 1 / 2"

definition split_rand :: "int \<Rightarrow> nat \<Rightarrow> real" where
  "split_rand p k = (if p = 500 then 1 / 2 else 1 / 4)"

definition worker :: "int \<Rightarrow> real \<Rightarrow> real \<Rightarrow> ProcessMetrics" where
  "worker p c m =
     \<lparr>pid = p, name = ''worker.exe'', cpu_percent = c, memory_percent = m,
      io_counters = None, thread_count = 10, create_time = 0, status = ''running'',
      priority = 0\<rparr>"

definition worker_snapshot :: SystemMetrics where
  "worker_snapshot =
     \<lparr>timestamp = 1, sys_cpu_percent = 50, sys_memory_percent = 50,
      processes = [worker 500 50 50], context_switches = 0, interrupts = 0\<rparr>"

definition pair_snapshot :: SystemMetrics where
  "pair_snapshot =
     \<lparr>timestamp = 1, sys_cpu_percent = 6, sys_memory_percent = 0,
      processes = [worker 500 6 0, worker 600 0 0], context_switches = 0, interrupts = 0\<rparr>"



definition pair_states :: "ProcessState list" where
  "pair_states =
     map snd (process_states
       (update_process_states split_rand (QuantumScheduler_init 4 0) pair_snapshot))"

definition tracked_scheduler :: QuantumScheduler where
  "tracked_scheduler = update_process_states half_rand (QuantumScheduler_init 4 0) worker_snapshot"

definition tracked_state :: "npfloat \<Rightarrow> ProcessState" where
  "tracked_state pr =
     \<lparr>st_pid = 500, st_priority = pr, quantum_state = Arr [1/2, 1/2, 1/2, 1/2],
      last_update = 1, resource_usage = \<lparr>cpu = 50, memory = 50, io = 0\<rparr>\<rparr>"

text \<open>
  A torch whose model forecasts the last row it is shown, a sample of process 500, and
  the learner after that one sample.
\<close>

definition stub_torch :: "(unit, unit) torch" where
  "stub_torch =
     \<lparr>init_model = (\<lambda>n. ()), init_adam = (),
      forward = (\<lambda>mdl rows. Some (last rows ! 0, last rows ! 1, last rows ! 2)),
      train_step = (\<lambda>mdl moments rate rows target. Some ((), ()))\<rparr>"

definition sample :: ProcessFeatures where
  "sample = extract_features (worker 500 50 50) worker_snapshot"

definition learner_one :: "(unit, unit) ContinualLearner" where
  "learner_one = update_process_model stub_torch ContinualLearner_init 500 sample"

section \<open>Properties of the action synthesizer\<close>

subsection \<open>Eligibility\<close>

text \<open>
  The per-process path of \<open>_analyze_system_state\<close> is behind \<open>_is_process_optimizable\<close>:
  every io or thread action stems from an eligible process of the snapshot.
\<close>

lemma per_process_actions_eligible:
  assumes "a \<in> set (concat (map (\<lambda>proc.
             if is_process_optimizable proc then optimize_process s now proc else [])
           (processes m)))"
  shows "\<exists>proc \<in> set (processes m). act_pid a = pid proc \<and> is_process_optimizable proc"
  using assms by (auto simp: optimize_process_def split: if_splits)

text \<open>
  C1.  Claimed: no synthesized action targets a process with pid below 100 or with a
  protected name.  The cpu path (and likewise the memory path) of
  \<open>_analyze_system_state\<close> never consults \<open>_is_process_optimizable\<close>: for a snapshot at 95
  percent aggregate cpu whose only process is \<open>System\<close>, pid 50, at 92 percent cpu, the
  process is not optimizable, yet the synthesizer emits a cpu action for pid 50, and with
  an operating system that accepts every call the action is recorded in the history.
\<close>

theorem cpu_action_targets_excluded_process:
  "\<not> is_process_optimizable excluded_proc
   \<and> analyze_system_state four_cores (SynergyCore_init 0) 1 excluded_snapshot =
       [\<lparr>act_pid = 50, action_type = cpu_optimization,
         parameters = [(''priority_class'', PStr ''BELOW_NORMAL''), (''affinity_mask'', PInt 15)],
         act_timestamp = 1, act_priority = 92 / 100\<rparr>]
   \<and> optimization_history (fst (process ok_os four_cores \<lparr>t_check = 1, t_stamp = 1, t_done = 1\<rparr>
         (SynergyCore_init 0, ()) excluded_snapshot)) =
       [\<lparr>act_pid = 50, action_type = cpu_optimization,
         parameters = [(''priority_class'', PStr ''BELOW_NORMAL''), (''affinity_mask'', PInt 15)],
         act_timestamp = 1, act_priority = 92 / 100\<rparr>]"
  by (simp add: process_def should_optimize_def apply_batch_def apply_optimization_def
      script_def priority_class_calls_def ok_os_def analyze_system_state_def
      SynergyCore_init_def excluded_snapshot_def excluded_proc_def optimize_cpu_usage_def
      sorted_desc_def calculate_optimal_affinity_def four_cores_def
      is_process_optimizable_def optimize_process_def)

subsection \<open>Cooldown\<close>

lemma process_call_state: "snd (process_call w env clk st m) = process w env clk st m"
  by (simp add: process_call_def process_def split: prod.splits)

text \<open>
  C9, as claimed: an invocation within the cooldown returns an empty list.  It fails on
  the returned value: \<open>process\<close> invoked 0.25 seconds after the last run returns \<open>None\<close>,
  which is not an empty list.
\<close>

theorem process_returns_none_not_empty_list:
  "t_check cooldown_clock - last_optimization (SynergyCore_init 1) < 0.5
   \<and> fst (process_call ok_os four_cores cooldown_clock (SynergyCore_init 1, ()) excluded_snapshot)
       = PyNone
   \<and> PyNone \<noteq> PyList []"
  by (simp add: process_call_def should_optimize_def SynergyCore_init_def cooldown_clock_def)

text \<open>
  C9, amended.  When \<open>process\<close> is invoked less than 0.5 seconds after the last completed
  run, it is a no-op that returns \<open>None\<close> (it returns no list on any path): the
  synthesizer state (history, \<open>last_optimization\<close>, thresholds) is left as it was and the
  operating system is not touched, whatever the snapshot, so no action is emitted.
\<close>

theorem process_within_cooldown_is_noop:
  assumes "t_check clk - last_optimization s < 0.5"
  shows "process_call w env clk (s, os) m = (PyNone, (s, os))
       \<and> process w env clk (s, os) m = (s, os)"
  using assms by (simp add: process_call_def process_def should_optimize_def)

theorem process_within_cooldown_is_noop_witness:
  "t_check cooldown_clock - last_optimization (SynergyCore_init 1) < 0.5
   \<and> process_call ok_os four_cores cooldown_clock (SynergyCore_init 1, ()) excluded_snapshot
       = (PyNone, (SynergyCore_init 1, ()))
   \<and> optimization_history (fst (process ok_os four_cores cooldown_clock
         (SynergyCore_init 1, ()) excluded_snapshot)) = []"
proof -
  have h: "t_check cooldown_clock - last_optimization (SynergyCore_init 1) < 0.5"
    by (simp add: SynergyCore_init_def cooldown_clock_def)
  have e: "optimization_history (SynergyCore_init 1) = []"
    by (simp add: SynergyCore_init_def)
  from h e process_within_cooldown_is_noop[OF h, of ok_os four_cores "()" excluded_snapshot]
  show ?thesis by simp
qed

subsection \<open>The history after a batch\<close>

lemma apply_batch_eq:
  "apply_batch w (s, os) actions =
     (case batch_outcomes w os (filter (\<lambda>a. act_priority a \<ge> action_threshold s) actions) of
        (rs, os') \<Rightarrow>
          (s\<lparr>optimization_history := optimization_history s @ map fst (filter snd rs)\<rparr>, os'))"
proof (induction actions arbitrary: s os)
  case Nil
  then show ?case by (simp add: apply_batch_def)
next
  case (Cons a as)
  have step: "apply_batch w (s, os) (a # as) =
      apply_batch w (if act_priority a \<ge> action_threshold s
                     then apply_optimization w (s, os) a else (s, os)) as"
    by (simp add: apply_batch_def)
  show ?case
  proof (cases "act_priority a \<ge> action_threshold s")
    case False
    with Cons step show ?thesis by simp
  next
    case True
    obtain os' ok where r: "run_script w os (script a) = (os', ok)"
      by (cases "run_script w os (script a)")
    show ?thesis
    proof (cases ok)
      case True
      with r \<open>act_priority a \<ge> action_threshold s\<close> step
        Cons[of "s\<lparr>optimization_history := optimization_history s @ [a]\<rparr>" os']
      show ?thesis by (simp add: apply_optimization_def split: prod.splits)
    next
      case False
      with r \<open>act_priority a \<ge> action_threshold s\<close> step Cons[of s os']
      show ?thesis by (simp add: apply_optimization_def split: prod.splits)
    qed
  qed
qed

lemma batch_outcomes_all: "map fst (fst (batch_outcomes w os as)) = as"
proof (induction as arbitrary: os)
  case Nil
  show ?case by simp
next
  case (Cons a as)
  obtain os' ok where r: "run_script w os (script a) = (os', ok)"
    by (cases "run_script w os (script a)")
  from Cons[of os'] r show ?case by (cases "batch_outcomes w os' as") simp
qed

lemma threads_actions:
  "analyze_system_state env (SynergyCore_init 0) 1 threads_snapshot =
     [thread_action 500 1, thread_action 600 1]"
  by (simp add: analyze_system_state_def SynergyCore_init_def threads_snapshot_def
      threads_proc_def is_process_optimizable_def optimize_process_def thread_action_def
      lower_def lower_char_def)

text \<open>
  C10.  In a run of \<open>process\<close> that passes the cadence check, every candidate action whose
  priority reaches \<open>action_threshold\<close> is attempted against the operating system in
  order, whether or not an earlier attempt raised; an attempt that raises appends nothing,
  and the history afterwards is the history before followed by exactly the actions whose
  attempt succeeded, in the order of the attempts.
\<close>

theorem history_records_exactly_the_successes:
  assumes "should_optimize s (t_check clk)"
  shows "process w env clk (s, os) m =
     (case batch_outcomes w os
        (filter (\<lambda>a. act_priority a \<ge> action_threshold s)
           (analyze_system_state env s (t_stamp clk) m)) of
        (rs, os') \<Rightarrow>
          (s\<lparr>optimization_history := optimization_history s @ map fst (filter snd rs),
              last_optimization := t_done clk\<rparr>, os'))
     \<and> map fst (fst (batch_outcomes w os
        (filter (\<lambda>a. act_priority a \<ge> action_threshold s)
           (analyze_system_state env s (t_stamp clk) m)))) =
        filter (\<lambda>a. act_priority a \<ge> action_threshold s)
           (analyze_system_state env s (t_stamp clk) m)"
  using assms by (simp add: process_def apply_batch_eq batch_outcomes_all split: prod.splits)

theorem history_records_exactly_the_successes_witness:
  "should_optimize (SynergyCore_init 0) 1 \<and>
   process deny_500 four_cores \<lparr>t_check = 1, t_stamp = 1, t_done = 2\<rparr>
       (SynergyCore_init 0, ()) threads_snapshot =
     ((SynergyCore_init 0)\<lparr>optimization_history := [thread_action 600 1],
                             last_optimization := 2\<rparr>, ())"
proof -
  have h: "should_optimize (SynergyCore_init 0) 1"
    by (simp add: should_optimize_def SynergyCore_init_def)
  have t: "action_threshold (SynergyCore_init 0) = 0.7"
    "optimization_history (SynergyCore_init 0) = []"
    by (simp_all add: SynergyCore_init_def)
  have p: "act_priority (thread_action 500 1) = 0.7" "act_priority (thread_action 600 1) = 0.7"
    by (simp_all add: thread_action_def)
  have r5: "run_script deny_500 () (script (thread_action 500 1)) = ((), False)"
    by (simp add: script_def priority_class_calls_def thread_action_def deny_500_def)
  have r6: "run_script deny_500 () (script (thread_action 600 1)) = ((), True)"
    by (simp add: script_def priority_class_calls_def thread_action_def deny_500_def)
  from history_records_exactly_the_successes
         [of "SynergyCore_init 0" "\<lparr>t_check = 1, t_stamp = 1, t_done = 2\<rparr>"
             deny_500 four_cores "()" threads_snapshot] h
  show ?thesis by (simp add: threads_actions t p r5 r6)
qed

section \<open>Properties of the quantum scheduler\<close>

subsection \<open>Loops over a range\<close>

lemma fold_upt_inv:
  assumes "a \<le> b" and "P a x"
    and "\<And>i y. a \<le> i \<Longrightarrow> i < b \<Longrightarrow> P i y \<Longrightarrow> P (Suc i) (f i y)"
  shows "P b (fold f [a ..< b] x)"
  using assms
proof (induction b)
  case 0
  then show ?case by simp
next
  case (Suc b)
  show ?case
  proof (cases "a = Suc b")
    case True
    with Suc.prems show ?thesis by simp
  next
    case False
    with Suc.prems have ab: "a \<le> b" by simp
    have "P b (fold f [a ..< b] x)"
      using Suc.IH[OF ab Suc.prems(2)] Suc.prems(3) by simp
    with ab Suc.prems(3)[of b "fold f [a ..< b] x"] show ?thesis by simp
  qed
qed

lemma funpow_length:
  assumes "\<And>x. length (f x) = length x"
  shows "length (((f :: 'a list \<Rightarrow> 'a list) ^^ n) x) = length x"
proof (induction n)
  case 0
  show ?case by simp
next
  case (Suc n)
  have "length ((f ^^ Suc n) x) = length (f ((f ^^ n) x))" by simp
  also have "\<dots> = length ((f ^^ n) x)" by (rule assms)
  finally show ?case using Suc by simp
qed

lemma funpow_fixed: "f x = x \<Longrightarrow> (f ^^ n) x = x"
  by (induction n) simp_all


subsection \<open>The coupling matrix\<close>

lemma dims_replicate: "dims n (replicate n (replicate n 0))"
  by (simp add: dims_def)

lemma set_entry_dims: "dims n h \<Longrightarrow> dims n (set_entry h i j x)"
proof (cases "i < length h")
  case True
  assume "dims n h"
  with True show ?thesis
    unfolding dims_def set_entry_def
    by (auto dest!: subsetD[OF set_update_subset_insert])
next
  case False
  assume "dims n h"
  with False show ?thesis
    by (simp add: set_entry_def list_update_beyond)
qed

lemma set_entry_nth:
  "dims n h \<Longrightarrow> a < n \<Longrightarrow> b < n \<Longrightarrow> i < n \<Longrightarrow> j < n \<Longrightarrow>
     set_entry h i j x ! a ! b = (if a = i \<and> b = j then x else h ! a ! b)"
  unfolding dims_def set_entry_def
  by (auto simp: nth_list_update)

text \<open>The loop over \<open>j\<close> writes row \<open>i\<close> and column \<open>i\<close> beyond the diagonal.\<close>

lemma inner_loop:
  assumes d: "dims n h" and i: "i < n" and m: "m \<le> n" "i < m"
  shows "dims n (fold (\<lambda>j h. set_entry (set_entry h i j (g j)) j i (g j)) [i + 1 ..< m] h)
    \<and> (\<forall>a<n. \<forall>b<n.
          fold (\<lambda>j h. set_entry (set_entry h i j (g j)) j i (g j)) [i + 1 ..< m] h ! a ! b =
            (if a = i \<and> i < b \<and> b < m then g b
             else if b = i \<and> i < a \<and> a < m then g a
             else h ! a ! b))"
proof (rule fold_upt_inv[where P = "\<lambda>m h'. dims n h' \<and> (\<forall>a<n. \<forall>b<n. h' ! a ! b =
            (if a = i \<and> i < b \<and> b < m then g b
             else if b = i \<and> i < a \<and> a < m then g a
             else h ! a ! b))"])
  show "i + 1 \<le> m" using m by simp
  show "dims n h \<and> (\<forall>a<n. \<forall>b<n. h ! a ! b =
            (if a = i \<and> i < b \<and> b < i + 1 then g b
             else if b = i \<and> i < a \<and> a < i + 1 then g a
             else h ! a ! b))" using d by auto
next
  fix j y
  assume j: "i + 1 \<le> j" "j < m"
    and inv: "dims n y \<and> (\<forall>a<n. \<forall>b<n. y ! a ! b =
            (if a = i \<and> i < b \<and> b < j then g b
             else if b = i \<and> i < a \<and> a < j then g a
             else h ! a ! b))"
  have jn: "j < n" using j m by simp
  have d1: "dims n (set_entry y i j (g j))" using inv set_entry_dims by blast
  have d2: "dims n (set_entry (set_entry y i j (g j)) j i (g j))" using d1 set_entry_dims by blast
  have e: "\<And>a b. a < n \<Longrightarrow> b < n \<Longrightarrow>
      set_entry (set_entry y i j (g j)) j i (g j) ! a ! b =
        (if a = j \<and> b = i then g j else if a = i \<and> b = j then g j else y ! a ! b)"
    using set_entry_nth[OF d1 _ _ jn i] set_entry_nth[OF conjunct1[OF inv] _ _ i jn] by simp
  show "dims n (set_entry (set_entry y i j (g j)) j i (g j)) \<and> (\<forall>a<n. \<forall>b<n.
          set_entry (set_entry y i j (g j)) j i (g j) ! a ! b =
            (if a = i \<and> i < b \<and> b < Suc j then g b
             else if b = i \<and> i < a \<and> a < Suc j then g a
             else h ! a ! b))"
    using d2 e inv j by (auto simp: less_Suc_eq)
qed

lemma calculate_interaction_sym:
  "calculate_interaction s1 s2 = calculate_interaction s2 s1"
  by (simp add: calculate_interaction_def Let_def abs_minus_commute)

lemma calculate_interaction_nonneg: "0 \<le> calculate_interaction s1 s2"
  by (simp add: calculate_interaction_def Let_def)

text \<open>Every entry of the matrix that \<open>_create_hamiltonian\<close> returns.\<close>

lemma create_hamiltonian_entries:
  "dims (length states) (create_hamiltonian states) \<and>
   (\<forall>a<length states. \<forall>b<length states.
      create_hamiltonian states ! a ! b =
        (if a < b then calculate_interaction (states ! a) (states ! b)
         else if b < a then calculate_interaction (states ! b) (states ! a)
         else 0))"
proof -
  define n where "n = length states"
  define G where "G = (\<lambda>i j. calculate_interaction (states ! i) (states ! j))"
  define body where "body = (\<lambda>i h.
           fold (\<lambda>j h. set_entry (set_entry h i j (G i j)) j i (G i j)) [i + 1 ..< n] h)"
  define Q where "Q = (\<lambda>k h'. dims n h' \<and> (\<forall>a<n. \<forall>b<n. h' ! a ! b =
      (if a < b \<and> a < k then G a b else if b < a \<and> b < k then G b a else 0)))"
  have ch: "create_hamiltonian states = fold body [0 ..< n] (replicate n (replicate n 0))"
    by (simp add: create_hamiltonian_def body_def G_def n_def Let_def)
  have "Q n (fold body [0 ..< n] (replicate n (replicate n 0)))"
  proof (rule fold_upt_inv)
    show "0 \<le> n" by simp
    show "Q 0 (replicate n (replicate n 0))"
      by (simp add: Q_def dims_replicate)
  next
    fix i y
    assume i: "i < n" and inv: "Q i y"
    show "Q (Suc i) (body i y)"
    proof (cases "Suc i < n")
      case True
      from inv have d: "dims n y" by (simp add: Q_def)
      from inner_loop[OF d i order_refl, of "G i"] True
      have r: "dims n (body i y)"
        "\<And>a b. a < n \<Longrightarrow> b < n \<Longrightarrow> body i y ! a ! b =
            (if a = i \<and> i < b \<and> b < n then G i b
             else if b = i \<and> i < a \<and> a < n then G i a
             else y ! a ! b)"
        by (simp_all add: body_def)
      show ?thesis
        unfolding Q_def
      proof (intro conjI allI impI)
        show "dims n (body i y)" by (rule r(1))
      next
        fix a b assume ab: "a < n" "b < n"
        with inv have y: "y ! a ! b =
            (if a < b \<and> a < i then G a b else if b < a \<and> b < i then G b a else 0)"
          by (simp add: Q_def)
        show "body i y ! a ! b =
            (if a < b \<and> a < Suc i then G a b else if b < a \<and> b < Suc i then G b a else 0)"
          using r(2)[OF ab] y ab by (auto simp: less_Suc_eq)
      qed
    next
      case False
      with i have e: "Suc i = n" by simp
      then have b: "body i y = y" by (simp add: body_def)
      from inv e show ?thesis
        unfolding Q_def b by (auto simp: less_Suc_eq)
    qed
  qed
  then have "Q n (create_hamiltonian states)" by (simp add: ch)
  then show ?thesis
    unfolding Q_def n_def G_def by auto
qed

lemma pair_tracked:
  "process_states (update_process_states split_rand (QuantumScheduler_init 4 0) pair_snapshot) =
     [(500, \<lparr>st_pid = 500, st_priority = Num 0, quantum_state = Arr [1/2, 1/2, 1/2, 1/2],
             last_update = 1, resource_usage = \<lparr>cpu = 6, memory = 0, io = 0\<rparr>\<rparr>),
      (600, \<lparr>st_pid = 600, st_priority = Num 0, quantum_state = Arr [1/4, 1/4, 1/4, 1/4],
             last_update = 1, resource_usage = \<lparr>cpu = 0, memory = 0, io = 0\<rparr>\<rparr>)]"
  by (simp add: update_process_states_def update_process_state_def QuantumScheduler_init_def
      pair_snapshot_def worker_def split_rand_def usage_of_def io_total_def eval_nat_numeral)

lemma pair_hamiltonian: "create_hamiltonian pair_states = [[0, 2], [2, 0]]"
  by (simp add: pair_states_def pair_tracked create_hamiltonian_def set_entry_def
      calculate_interaction_def Let_def)

text \<open>
  C6, as claimed: every off-diagonal entry of the coupling matrix lies in \<open>[0, 1]\<close>.
  It fails: two processes at 6 and 0 percent cpu are coupled with weight 2.
\<close>

theorem coupling_weight_exceeds_one:
  "create_hamiltonian pair_states ! 0 ! 1 = 2 \<and> \<not> (2 \<le> (1::real))"
  by (simp add: pair_hamiltonian)

text \<open>
  C6, amended.  The coupling matrix built over the \<open>n\<close> tracked processes is \<open>n\<close> by
  \<open>n\<close>, symmetric with zero diagonal, and every off-diagonal entry is the mean absolute difference of the
  two processes' cpu, memory and io usage: it is non-negative, with no upper bound of 1.
\<close>

theorem coupling_matrix_symmetric_zero_diagonal:
  assumes "i < length states" and "j < length states"
  shows "length (create_hamiltonian states) = length states
       \<and> length (create_hamiltonian states ! i) = length states
       \<and> create_hamiltonian states ! i ! j = create_hamiltonian states ! j ! i
       \<and> create_hamiltonian states ! i ! i = 0
       \<and> (i \<noteq> j \<longrightarrow> create_hamiltonian states ! i ! j
              = calculate_interaction (states ! i) (states ! j))
       \<and> 0 \<le> create_hamiltonian states ! i ! j"
  using assms create_hamiltonian_entries[of states]
    calculate_interaction_sym[of "states ! i" "states ! j"]
    calculate_interaction_nonneg[of "states ! i" "states ! j"]
  by (auto simp: not_less dims_def)

theorem coupling_matrix_symmetric_zero_diagonal_witness:
  "(0::nat) < length pair_states \<and> (1::nat) < length pair_states
   \<and> length (create_hamiltonian pair_states) = 2
   \<and> create_hamiltonian pair_states ! 0 ! 1 = create_hamiltonian pair_states ! 1 ! 0
   \<and> create_hamiltonian pair_states ! 0 ! 0 = 0
   \<and> create_hamiltonian pair_states ! 0 ! 1
       = calculate_interaction (pair_states ! 0) (pair_states ! 1)"
  using coupling_matrix_symmetric_zero_diagonal[of 0 pair_states 1]
  by (simp add: pair_states_def pair_tracked)

subsection \<open>Division by the norm\<close>

lemma sum_squares_nonneg: "0 \<le> sum_list (map (\<lambda>x. x * x) v)" for v :: "real list"
  by (induction v) simp_all



lemma sum_squares_scaled:
  "sum_list (map (\<lambda>x. x * x) (map (\<lambda>x. x / c) v)) = sum_list (map (\<lambda>x. x * x) v) / (c * c)"
  for v :: "real list"
  by (induction v) (simp_all add: add_divide_distrib)

lemma l2_norm_scaled:
  assumes "l2_norm v \<noteq> 0"
  shows "l2_norm (map (\<lambda>x. x / l2_norm v) v) = 1"
proof -
  define S where "S = sum_list (map (\<lambda>x. x * x) v)"
  define c where "c = l2_norm v"
  have S0: "0 \<le> S" by (simp add: S_def sum_squares_nonneg)
  have n: "c = sqrt S" by (simp add: c_def l2_norm_def S_def)
  with assms have Sne: "S \<noteq> 0" by (auto simp: c_def)
  have cc: "c * c = S" using S0 n by simp
  have "l2_norm (map (\<lambda>x. x / c) v) = sqrt (S / (c * c))"
    by (simp only: l2_norm_def sum_squares_scaled S_def)
  also have "\<dots> = 1" using Sne cc by simp
  finally show ?thesis by (simp add: c_def)
qed

lemma normalise_unit_or_nan: "unit_or_nan (normalise a)"
  by (cases a) (simp_all add: unit_or_nan_def l2_norm_scaled)


subsection \<open>Annealing\<close>

lemma annealing_step_inv:
  "length (annealing_step k t h cur) = length cur
   \<and> (\<forall>i < length cur. unit_or_nan (annealing_step k t h cur ! i))"
proof -
  define n where "n = length cur"
  have "length (fold (\<lambda>i c. evolve k t h c i) [0 ..< n] cur) = n
      \<and> (\<forall>i < n. unit_or_nan (fold (\<lambda>i c. evolve k t h c i) [0 ..< n] cur ! i))"
  proof (rule fold_upt_inv[where P = "\<lambda>m c. length c = n \<and> (\<forall>i < m. unit_or_nan (c ! i))"])
    show "0 \<le> n" by simp
    show "length cur = n \<and> (\<forall>i<0. unit_or_nan (cur ! i))" by (simp add: n_def)
  next
    fix i y
    assume "i < n" and inv: "length y = n \<and> (\<forall>j<i. unit_or_nan (y ! j))"
    then show "length (evolve k t h y i) = n \<and> (\<forall>j<Suc i. unit_or_nan (evolve k t h y i ! j))"
      by (auto simp: evolve_def nth_list_update less_Suc_eq normalise_unit_or_nan)
  qed
  then show ?thesis by (simp add: annealing_step_def n_def)
qed

lemma quantum_annealing_length:
  "length (quantum_annealing k t h states) = length states"
  by (simp add: quantum_annealing_def funpow_length annealing_step_inv)


lemma half_norm: "l2_norm [1/2, 1/2, 1/2, 1/2] = 1"
  by (simp add: l2_norm_def)


lemma half_step:
  "annealing_step 4 1 [[0]] [Arr [1/2, 1/2, 1/2, 1/2]] = [Arr [1/2, 1/2, 1/2, 1/2]]"
  by (simp add: annealing_step_def evolve_def force_def half_norm eval_nat_numeral)














subsection \<open>Priorities\<close>

lemma write_back_priority:
  assumes "length qs = length sts" and "(k, st) \<in> set (write_back sts qs)"
  shows "st_priority st = calculate_priority (quantum_state st) (resource_usage st)"
  using assms
  by (induction sts qs rule: write_back.induct) auto

lemma tracked:
  "process_states tracked_scheduler = [(500, tracked_state (Num 0))]"
  by (simp add: tracked_scheduler_def tracked_state_def update_process_states_def
      update_process_state_def QuantumScheduler_init_def worker_snapshot_def worker_def
      half_rand_def usage_of_def io_total_def eval_nat_numeral)

lemma tracked_params:
  "num_qubits tracked_scheduler = 4" "temperature tracked_scheduler = 1"
  "qs_last_optimization tracked_scheduler = 0"
  by (simp_all add: tracked_scheduler_def update_process_states_def update_process_state_def
      QuantumScheduler_init_def worker_snapshot_def)

lemma tracked_hamiltonian: "create_hamiltonian [tracked_state (Num 0)] = [[0]]"
  by (simp add: create_hamiltonian_def)

lemma tracked_annealing:
  "quantum_annealing 4 1 [[0]] [tracked_state (Num 0)] = [Arr [1/2, 1/2, 1/2, 1/2]]"
  by (simp add: quantum_annealing_def tracked_state_def funpow_fixed half_step)

lemma tracked_optimized:
  "process_states (optimize_scheduling 1 1 tracked_scheduler)
     = [(500, tracked_state (Num (307 / 20)))]"
  by (simp add: optimize_scheduling_def tracked tracked_params tracked_hamiltonian
      tracked_annealing calculate_priority_def Let_def, simp add: tracked_state_def)

text \<open>
  C2, as claimed: the priority is
  \<open>0.7 * mean(state) + 0.3 * ((cpu + memory) / 2) / 100\<close> clamped to \<open>[0, 1]\<close>.  It fails:
  after the first update, with an optimization pass, on a snapshot whose one process runs
  at 50 percent cpu and 50 percent memory and whose drawn state is
  \<open>(1/2, 1/2, 1/2, 1/2)\<close>, the stored priority is \<open>0.7 * 0.5 + 0.3 * 50 = 15.35\<close>, not
  \<open>0.5\<close>, and it is above 1.
\<close>

theorem priority_exceeds_one:
  "process_states (QuantumScheduler_update half_rand \<lparr>t_check = 1, t_stamp = 1, t_done = 1\<rparr>
        (QuantumScheduler_init 4 0) worker_snapshot) = [(500, tracked_state (Num (307 / 20)))]
   \<and> st_priority (tracked_state (Num (307 / 20))) = Num (307 / 20)
   \<and> \<not> (307 / 20 \<le> (1::real))
   \<and> (307 / 20 :: real) \<noteq> 0.7 * (1/2) + 0.3 * (((50 + 50) / 2) / 100)"
proof -
  have "qs_should_optimize tracked_scheduler 1"
    by (simp add: qs_should_optimize_def tracked_params)
  then have "QuantumScheduler_update half_rand \<lparr>t_check = 1, t_stamp = 1, t_done = 1\<rparr>
        (QuantumScheduler_init 4 0) worker_snapshot = optimize_scheduling 1 1 tracked_scheduler"
    by (simp add: QuantumScheduler_update_def tracked_scheduler_def)
  then show ?thesis
    by (simp add: tracked_optimized tracked_state_def)
qed

text \<open>
  C2, amended.  After each relaxation pass, for every tracked pid the stored priority
  equals \<open>0.7 * mean(state) + 0.3 * ((cpu_percent + memory_percent) / 2)\<close> of the stored
  state and usage, the usage term not divided by 100 and the sum not clamped (and it is
  NaN when the state is); the priority is not confined to \<open>[0, 1]\<close>.
\<close>

theorem priority_after_pass:
  assumes "process_states s \<noteq> []"
    and "(k, st) \<in> set (process_states (optimize_scheduling t_log t_end s))"
  shows "st_priority st =
     (case np_mean (quantum_state st) of
        NaN \<Rightarrow> NaN
      | Num q \<Rightarrow> Num (0.7 * q + 0.3 * ((cpu (resource_usage st) + memory (resource_usage st)) / 2)))"
proof -
  from assms have "(k, st) \<in> set (write_back (process_states s)
      (quantum_annealing (num_qubits s) (temperature s)
         (create_hamiltonian (map snd (process_states s))) (map snd (process_states s))))"
    by (simp add: optimize_scheduling_def Let_def)
  then have "st_priority st = calculate_priority (quantum_state st) (resource_usage st)"
    by (rule write_back_priority[rotated]) (simp add: quantum_annealing_length)
  then show ?thesis by (simp add: calculate_priority_def Let_def)
qed

theorem priority_after_pass_witness:
  "process_states tracked_scheduler \<noteq> []
   \<and> (500, tracked_state (Num (307 / 20)))
       \<in> set (process_states (optimize_scheduling 1 1 tracked_scheduler))
   \<and> st_priority (tracked_state (Num (307 / 20))) = Num (0.7 * (1/2) + 0.3 * ((50 + 50) / 2))"
proof -
  have a: "process_states tracked_scheduler \<noteq> []"
    by (simp add: tracked)
  have b: "(500, tracked_state (Num (307 / 20)))
       \<in> set (process_states (optimize_scheduling 1 1 tracked_scheduler))"
    by (simp add: tracked_optimized)
  from priority_after_pass[OF a b] a b show ?thesis
    by (simp add: tracked_state_def)
qed

subsection \<open>The priority query\<close>

text \<open>
  C5.  Claimed: the query returns the scalar priority of a tracked pid.
  \<open>get_process_priority\<close>, declared \<open>Optional[float]\<close> and documented as giving the current
  priority, returns the entry of \<open>process_states\<close>: the whole \<open>ProcessState\<close> of a tracked
  pid, not its \<open>priority\<close> field.  For an unknown pid it returns \<open>None\<close>, as claimed.
\<close>

theorem get_process_priority_returns_state:
  "get_process_priority tracked_scheduler 500 =
     Some \<lparr>st_pid = 500, st_priority = Num 0, quantum_state = Arr [1/2, 1/2, 1/2, 1/2],
           last_update = 1, resource_usage = \<lparr>cpu = 50, memory = 50, io = 0\<rparr>\<rparr>
   \<and> get_process_priority tracked_scheduler 501 = None"
  by (simp add: get_process_priority_def tracked tracked_state_def)

section \<open>Properties of the continual learner\<close>

subsection \<open>What the operations leave unchanged\<close>

lemma map_of_dict_set:
  "map_of (dict_set k v d) k' = (if k' = k then Some v else map_of d k')"
  by (induction d) auto

lemma predictor_windows_iff:
  "predictor_windows s \<longleftrightarrow>
     (\<forall>p. map_of (process_predictors s) p \<noteq> None \<longrightarrow> map_of (feature_history s) p \<noteq> None)"
  unfolding predictor_windows_def list_all_iff
  by (force simp: map_of_eq_None_iff)

lemma train_learning_rate:
  "learning_rate (train_process_model t s p) = learning_rate s"
  by (simp add: train_process_model_def split: option.splits prod.splits)

lemma train_feature_history:
  "feature_history (train_process_model t s p) = feature_history s"
  by (simp add: train_process_model_def split: option.splits prod.splits)

lemma train_sequence_length:
  "sequence_length (train_process_model t s p) = sequence_length s"
  by (simp add: train_process_model_def split: option.splits prod.splits)

lemma train_predictors_known:
  "map_of (process_predictors (train_process_model t s p)) q = None
     \<longleftrightarrow> map_of (process_predictors s) q = None"
  by (auto simp: train_process_model_def map_of_dict_set split: option.splits prod.splits if_splits)

lemma update_model_learning_rate:
  "learning_rate (update_process_model t s p f) = learning_rate s"
  by (simp add: update_process_model_def Let_def train_learning_rate split: option.splits)

lemma update_model_sequence_length:
  "sequence_length (update_process_model t s p f) = sequence_length s"
  by (simp add: update_process_model_def Let_def train_sequence_length split: option.splits)

lemma loop_learning_rate:
  "learning_rate (handle_drift_loop t s ps) = learning_rate s"
  by (induction ps arbitrary: s) (simp_all add: Let_def split: option.splits)

lemma loop_sequence_length:
  "sequence_length (handle_drift_loop t s ps) = sequence_length s"
  by (induction ps arbitrary: s) (simp_all add: Let_def split: option.splits)

lemma fold_update_learning_rate:
  "learning_rate (fold (\<lambda>proc s. update_process_model t s (pid proc) (extract_features proc m)) ps s)
     = learning_rate s"
  by (induction ps arbitrary: s) (simp_all add: update_model_learning_rate)

lemma detect_drift_learning_rate:
  "learning_rate (detect_drift t s d) = learning_rate s"
  by (simp add: detect_drift_def handle_drift_def loop_learning_rate
      split: option.splits bool.splits)

lemmas learner_frame =
  train_learning_rate train_feature_history train_sequence_length
  update_model_learning_rate update_model_sequence_length
  loop_learning_rate loop_sequence_length
  fold_update_learning_rate detect_drift_learning_rate

subsection \<open>The invariant of the dictionaries\<close>

lemma loop_window_kept:
  "map_of (feature_history s) q = Some [] \<Longrightarrow>
     map_of (feature_history (handle_drift_loop t s ps)) q = Some []"
  by (induction ps arbitrary: s) (auto simp: Let_def map_of_dict_set split: option.splits)

lemma loop_windows_cleared:
  assumes "\<forall>p \<in> set ps. map_of (feature_history s) p \<noteq> None" and "q \<in> set ps"
  shows "map_of (feature_history (handle_drift_loop t s ps)) q = Some []"
  using assms
proof (induction ps arbitrary: s)
  case Nil
  then show ?case by simp
next
  case (Cons p ps)
  then obtain h where h: "map_of (feature_history s) p = Some h" by auto
  define s' where "s' = s\<lparr>process_predictors :=
                   dict_set p (init_model t (constructed s)) (process_predictors s),
                 optimizers :=
                   dict_set p \<lparr>lr = learning_rate s, adam_state = init_adam t\<rparr> (optimizers s),
                 constructed := Suc (constructed s),
                 feature_history := dict_set p [] (feature_history s)\<rparr>"
  have e: "handle_drift_loop t s (p # ps) = handle_drift_loop t s' ps"
    using h by (simp add: s'_def Let_def)
  have pre: "\<forall>r \<in> set ps. map_of (feature_history s') r \<noteq> None"
    using Cons.prems(1) by (simp add: s'_def map_of_dict_set)
  show ?case
  proof (cases "q \<in> set ps")
    case True
    with Cons.IH[OF pre] e show ?thesis by simp
  next
    case False
    with Cons.prems(2) have "q = p" by simp
    then have "map_of (feature_history s') q = Some []" by (simp add: s'_def map_of_dict_set)
    then show ?thesis unfolding e by (rule loop_window_kept)
  qed
qed

lemma loop_predictors_unknown:
  assumes "map_of (process_predictors s) q = None" and "q \<notin> set ps"
  shows "map_of (process_predictors (handle_drift_loop t s ps)) q = None"
  using assms
proof (induction ps arbitrary: s)
  case Nil
  then show ?case by simp
next
  case (Cons p ps)
  from Cons.prems have qp: "q \<noteq> p" "q \<notin> set ps" by auto
  show ?case
  proof (cases "map_of (feature_history s) p")
    case None
    with Cons.prems qp show ?thesis by (simp add: Let_def map_of_dict_set)
  next
    case (Some h)
    with Cons.prems qp show ?thesis
      by (simp add: Let_def map_of_dict_set Cons.IH)
  qed
qed

lemma loop_predictors_kept:
  "map_of (process_predictors s) q \<noteq> None
     \<Longrightarrow> map_of (process_predictors (handle_drift_loop t s ps)) q \<noteq> None"
  by (induction ps arbitrary: s) (auto simp: Let_def map_of_dict_set split: option.splits if_splits)

lemma keys_known: "q \<in> set (map fst d) \<longleftrightarrow> map_of d q \<noteq> None"
  by (simp add: map_of_eq_None_iff)

lemma drift_clears_windows:
  assumes "predictor_windows s" and "map_of (process_predictors (handle_drift t s)) q \<noteq> None"
  shows "map_of (feature_history (handle_drift t s)) q = Some []"
proof -
  have "map_of (process_predictors s) q \<noteq> None"
  proof
    assume n: "map_of (process_predictors s) q = None"
    then have "q \<notin> set (map fst (process_predictors s))" by (simp add: map_of_eq_None_iff)
    with n assms(2) show False
      unfolding handle_drift_def by (simp add: loop_predictors_unknown)
  qed
  then have q: "q \<in> set (map fst (process_predictors s))" by (simp add: map_of_eq_None_iff)
  from assms(1) have "\<forall>p \<in> set (map fst (process_predictors s)). map_of (feature_history s) p \<noteq> None"
    unfolding predictor_windows_def list_all_iff by auto
  then show ?thesis
    unfolding handle_drift_def using q by (rule loop_windows_cleared)
qed

lemma loop_fresh_kept:
  "fresh_model t c (learning_rate s) s q
     \<Longrightarrow> fresh_model t c (learning_rate s) (handle_drift_loop t s ps) q"
proof (induction ps arbitrary: s)
  case Nil
  then show ?case by simp
next
  case (Cons p ps)
  define s1 where "s1 = s\<lparr>process_predictors :=
                   dict_set p (init_model t (constructed s)) (process_predictors s),
                 optimizers :=
                   dict_set p \<lparr>lr = learning_rate s, adam_state = init_adam t\<rparr> (optimizers s),
                 constructed := Suc (constructed s)\<rparr>"
  have f1: "fresh_model t c (learning_rate s) s1 q"
  proof (cases "q = p")
    case True
    from Cons.prems have "c \<le> constructed s" by (auto simp: fresh_model_def)
    with True show ?thesis
      by (auto simp: fresh_model_def s1_def map_of_dict_set intro!: bexI[of _ "constructed s"])
  next
    case False
    with Cons.prems show ?thesis
      by (auto simp: fresh_model_def s1_def map_of_dict_set)
  qed
  show ?case
  proof (cases "map_of (feature_history s) p")
    case None
    then have "handle_drift_loop t s (p # ps) = s1" by (simp add: s1_def Let_def)
    with f1 show ?thesis by simp
  next
    case (Some h)
    define s2 where "s2 = s1\<lparr>feature_history := dict_set p [] (feature_history s1)\<rparr>"
    from Some have e: "handle_drift_loop t s (p # ps) = handle_drift_loop t s2 ps"
      by (simp add: s1_def s2_def Let_def)
    have r: "learning_rate s2 = learning_rate s" by (simp add: s2_def s1_def)
    from f1 have "fresh_model t c (learning_rate s2) s2 q"
      by (simp add: fresh_model_def s2_def r) (simp add: s1_def)
    from Cons.IH[OF this] show ?thesis unfolding e by (simp add: r)
  qed
qed

lemma loop_fresh:
  assumes "\<forall>p \<in> set ps. map_of (feature_history s) p \<noteq> None" and "q \<in> set ps"
  shows "fresh_model t (constructed s) (learning_rate s) (handle_drift_loop t s ps) q"
  using assms
proof (induction ps arbitrary: s)
  case Nil
  then show ?case by simp
next
  case (Cons p ps)
  then obtain h where h: "map_of (feature_history s) p = Some h" by auto
  define s2 where "s2 = s\<lparr>process_predictors :=
                   dict_set p (init_model t (constructed s)) (process_predictors s),
                 optimizers :=
                   dict_set p \<lparr>lr = learning_rate s, adam_state = init_adam t\<rparr> (optimizers s),
                 constructed := Suc (constructed s),
                 feature_history := dict_set p [] (feature_history s)\<rparr>"
  have e: "handle_drift_loop t s (p # ps) = handle_drift_loop t s2 ps"
    using h by (simp add: s2_def Let_def)
  have r: "learning_rate s2 = learning_rate s" "constructed s2 = Suc (constructed s)"
    by (simp_all add: s2_def)
  have pre: "\<forall>r \<in> set ps. map_of (feature_history s2) r \<noteq> None"
    using Cons.prems(1) by (simp add: s2_def map_of_dict_set)
  show ?case
  proof (cases "q \<in> set ps")
    case True
    from Cons.IH[OF pre True] have "fresh_model t (Suc (constructed s)) (learning_rate s)
        (handle_drift_loop t s2 ps) q" by (simp add: r)
    then show ?thesis unfolding e by (auto simp: fresh_model_def)
  next
    case False
    with Cons.prems(2) have "q = p" by simp
    then have "fresh_model t (constructed s) (learning_rate s2) s2 q"
      by (auto simp: fresh_model_def s2_def map_of_dict_set intro!: bexI[of _ "constructed s"])
    from loop_fresh_kept[OF this, where ps = ps] show ?thesis
      unfolding e by (simp add: r)
  qed
qed

lemma drift_known:
  "map_of (process_predictors (handle_drift t s)) q = None
     \<longleftrightarrow> map_of (process_predictors s) q = None"
proof
  assume a: "map_of (process_predictors (handle_drift t s)) q = None"
  show "map_of (process_predictors s) q = None"
  proof (rule ccontr)
    assume "map_of (process_predictors s) q \<noteq> None"
    then have "map_of (process_predictors (handle_drift t s)) q \<noteq> None"
      unfolding handle_drift_def by (rule loop_predictors_kept)
    with a show False by simp
  qed
next
  assume n: "map_of (process_predictors s) q = None"
  then have "q \<notin> set (map fst (process_predictors s))" by (simp add: map_of_eq_None_iff)
  with n show "map_of (process_predictors (handle_drift t s)) q = None"
    unfolding handle_drift_def by (rule loop_predictors_unknown)
qed

lemma drift_reinitialises:
  assumes "predictor_windows s" and "map_of (process_predictors (handle_drift t s)) q \<noteq> None"
  shows "reinitialised t (constructed s) (learning_rate s) (handle_drift t s) q"
proof -
  from assms(2) have "map_of (process_predictors s) q \<noteq> None" by (simp add: drift_known)
  then have q: "q \<in> set (map fst (process_predictors s))" by (simp add: map_of_eq_None_iff)
  from assms(1) have w: "\<forall>p \<in> set (map fst (process_predictors s)). map_of (feature_history s) p \<noteq> None"
    unfolding predictor_windows_def list_all_iff by auto
  from loop_fresh[OF w q, of t] drift_clears_windows[OF assms]
  show ?thesis by (simp add: reinitialised_def fresh_model_def handle_drift_def)
qed

lemma predictor_windows_init: "predictor_windows ContinualLearner_init"
  by (simp add: predictor_windows_def ContinualLearner_init_def)

lemma update_model_predictors_unknown:
  assumes "map_of (process_predictors s) q = None" and "q \<noteq> p"
  shows "map_of (process_predictors (update_process_model t s p f)) q = None"
  using assms
  by (auto simp: update_process_model_def Let_def map_of_dict_set train_predictors_known
      split: option.splits)

lemma predictor_windows_update_model:
  assumes "predictor_windows s"
  shows "predictor_windows (update_process_model t s p f)"
  unfolding predictor_windows_iff
proof (intro allI impI)
  fix q
  assume k: "map_of (process_predictors (update_process_model t s p f)) q \<noteq> None"
  show "map_of (feature_history (update_process_model t s p f)) q \<noteq> None"
  proof (cases "q = p")
    case True
    show ?thesis
    proof (cases "map_of (process_predictors s) p = None")
      case True
      with \<open>q = p\<close> show ?thesis
        by (simp add: update_process_model_def Let_def map_of_dict_set learner_frame)
    next
      case False
      with assms obtain h where "map_of (feature_history s) p = Some h"
        by (auto simp: predictor_windows_iff)
      with False \<open>q = p\<close> show ?thesis
        by (simp add: update_process_model_def Let_def map_of_dict_set learner_frame)
    qed
  next
    case False
    have "map_of (process_predictors s) q \<noteq> None"
    proof
      assume "map_of (process_predictors s) q = None"
      from update_model_predictors_unknown[OF this False, of t f] k show False by simp
    qed
    with assms have "map_of (feature_history s) q \<noteq> None"
      by (simp add: predictor_windows_iff)
    with False show ?thesis
      by (auto simp: update_process_model_def Let_def map_of_dict_set learner_frame
          split: option.splits)
  qed
qed

lemma loop_windows_known:
  "map_of (feature_history s) q \<noteq> None
     \<Longrightarrow> map_of (feature_history (handle_drift_loop t s ps)) q \<noteq> None"
proof (induction ps arbitrary: s)
  case Nil
  then show ?case by simp
next
  case (Cons p ps)
  show ?case
  proof (cases "map_of (feature_history s) p")
    case None
    with Cons.prems show ?thesis by (simp add: Let_def)
  next
    case (Some h)
    with Cons.prems show ?thesis
      by (simp add: Let_def Cons.IH map_of_dict_set)
  qed
qed

lemma predictor_windows_drift:
  assumes "predictor_windows s"
  shows "predictor_windows (handle_drift t s)"
  unfolding predictor_windows_iff
proof (intro allI impI)
  fix q
  assume "map_of (process_predictors (handle_drift t s)) q \<noteq> None"
  then have "map_of (feature_history (handle_drift t s)) q = Some []"
    by (rule drift_clears_windows[OF assms])
  then show "map_of (feature_history (handle_drift t s)) q \<noteq> None" by simp
qed

lemma predictor_windows_fold:
  "predictor_windows s \<Longrightarrow>
     predictor_windows
       (fold (\<lambda>proc s. update_process_model t s (pid proc) (extract_features proc m)) ps s)"
  by (induction ps arbitrary: s) (simp_all add: predictor_windows_update_model)

lemma predictor_windows_tick:
  assumes "predictor_windows s"
  shows "predictor_windows (ContinualLearner_update t s m drift score)"
proof -
  define s1 where
    "s1 = fold (\<lambda>proc s. update_process_model t s (pid proc) (extract_features proc m))
            (processes m) s"
  have w1: "predictor_windows s1"
    unfolding s1_def using assms by (rule predictor_windows_fold)
  have w2: "predictor_windows (detect_drift t s1 drift)"
    using w1 by (auto simp: detect_drift_def predictor_windows_drift split: option.splits bool.splits)
  have w3: "\<And>s'. predictor_windows s' \<Longrightarrow> predictor_windows (detect_anomalies s' score)"
    by (auto simp: detect_anomalies_def handle_anomaly_def predictor_windows_def Let_def
        split: option.splits)
  show ?thesis
    unfolding ContinualLearner_update_def Let_def s1_def[symmetric]
    using w2 by (rule w3)
qed

subsection \<open>The learner after one sample\<close>

lemma learner_one_eq:
  "learner_one =
     \<lparr>process_predictors = [(500, ())], optimizers = [(500, \<lparr>lr = 0.001, adam_state = ()\<rparr>)],
      feature_history = [(500, [sample])], learning_rate = 0.001, batch_size = 32,
      sequence_length = 10, constructed = 1\<rparr>"
  by (simp add: learner_one_def update_process_model_def ContinualLearner_init_def stub_torch_def
      Let_def)

lemma sample_row: "feature_row sample = [50, 50, 0, 10, 0]"
  by (simp add: feature_row_def sample_def extract_features_def worker_def io_total_def
      worker_snapshot_def)

lemma drift_one:
  "handle_drift stub_torch learner_one =
     \<lparr>process_predictors = [(500, ())], optimizers = [(500, \<lparr>lr = 0.001, adam_state = ()\<rparr>)],
      feature_history = [(500, [])], learning_rate = 0.001, batch_size = 32,
      sequence_length = 10, constructed = 2\<rparr>"
  by (simp add: learner_one_eq handle_drift_def Let_def stub_torch_def)

subsection \<open>Anomalies and the learning rate\<close>

text \<open>
  C8.  In one tick (\<open>update\<close>) the shared learning rate is multiplied by exactly 2 when
  the anomaly score of the tick exceeds 0.8, and is left as it was otherwise (also when
  the detector raises); in a triggering tick the doubled rate is the \<open>lr\<close> of every
  optimizer the learner holds afterwards.  Model updates, training and drift resets do
  not touch the rate, and the queries have no effect on the state, so for a positive
  rate nothing ever lowers it.
\<close>

theorem anomaly_doubles_learning_rate:
  "learning_rate (ContinualLearner_update t s m drift score) =
     (case score of
        None \<Rightarrow> learning_rate s
      | Some x \<Rightarrow> if x > 0.8 then 2 * learning_rate s else learning_rate s)
   \<and> (\<forall>x. score = Some x \<and> x > 0.8 \<longrightarrow>
        list_all (\<lambda>(k, opt). lr opt = 2 * learning_rate s)
          (optimizers (ContinualLearner_update t s m drift score)))"
  by (auto simp: ContinualLearner_update_def detect_anomalies_def handle_anomaly_def Let_def
      list_all_iff learner_frame split: option.splits)

theorem anomaly_doubles_learning_rate_witness:
  "learning_rate (ContinualLearner_update stub_torch learner_one worker_snapshot None (Some 0.9))
     = 2 * learning_rate learner_one
   \<and> optimizers (ContinualLearner_update stub_torch learner_one worker_snapshot None (Some 0.9))
     = [(500, \<lparr>lr = 0.002, adam_state = ()\<rparr>)]"
proof -
  have "optimizers (ContinualLearner_update stub_torch learner_one worker_snapshot None (Some 0.9))
     = [(500, \<lparr>lr = 0.002, adam_state = ()\<rparr>)]"
    by (simp add: ContinualLearner_update_def learner_one_eq worker_snapshot_def worker_def
        update_process_model_def Let_def detect_drift_def detect_anomalies_def handle_anomaly_def)
  with anomaly_doubles_learning_rate[of stub_torch learner_one worker_snapshot None "Some 0.9"]
  show ?thesis by simp
qed

subsection \<open>Predictions and the feature window\<close>

text \<open>
  C4, as claimed: \<open>predict\<close> returns none while the window holds fewer than 10 samples.
  It fails: after the first sample of a process, and likewise after a drift reset
  followed by one sample, the window holds one sample and \<open>predict\<close> returns the model's
  output for it.
\<close>

theorem predict_on_short_window:
  "map_of (feature_history learner_one) 500 = Some [sample]
   \<and> length [sample] < sequence_length learner_one
   \<and> predict_process_metrics stub_torch learner_one 500 = Some (50, 50, 0)
   \<and> predict_process_metrics stub_torch
       (update_process_model stub_torch (handle_drift stub_torch learner_one) 500 sample) 500
       = Some (50, 50, 0)"
  by (simp add: drift_one update_process_model_def Let_def predict_process_metrics_def sample_row,
      simp add: learner_one_eq predict_process_metrics_def sample_row stub_torch_def)

text \<open>
  C4, amended.  \<open>predict(pid)\<close> returns none when the pid is unknown or its feature window
  is empty; for a known pid with a window of one sample or more, full or not, it returns
  what the pid's model gives on the whole window (none only if torch raises).  A drift
  event keeps the known pids, clears the window of each, and gives each a newly
  constructed model and a new optimizer at the current learning rate; immediately after
  it \<open>predict(pid)\<close> returns none for every pid, until one fresh sample for that pid has
  arrived: \<open>predict\<close> then returns the new model's output on the window of that one
  sample.
\<close>

theorem predict_none_until_first_sample:
  assumes "predictor_windows s"
  shows "(map_of (process_predictors s) p = None \<or> map_of (feature_history s) p = Some []
            \<longrightarrow> predict_process_metrics t s p = None)
       \<and> (\<forall>mdl features.
             map_of (process_predictors s) p = Some mdl
             \<and> map_of (feature_history s) p = Some features \<and> features \<noteq> []
             \<longrightarrow> predict_process_metrics t s p = forward t mdl (map feature_row features))
       \<and> predict_process_metrics t (handle_drift t s) p = None
       \<and> (map_of (process_predictors (handle_drift t s)) p = None
            \<longleftrightarrow> map_of (process_predictors s) p = None)
       \<and> (\<forall>mdl. map_of (process_predictors (handle_drift t s)) p = Some mdl \<longrightarrow>
             reinitialised t (constructed s) (learning_rate s) (handle_drift t s) p
             \<and> (sequence_length s = 10 \<longrightarrow>
                  predict_process_metrics t (update_process_model t (handle_drift t s) p f) p
                    = forward t mdl [feature_row f]))"
proof (intro conjI impI allI)
  assume "map_of (process_predictors s) p = None \<or> map_of (feature_history s) p = Some []"
  then show "predict_process_metrics t s p = None"
    by (auto simp: predict_process_metrics_def split: option.splits)
next
  fix mdl features
  assume "map_of (process_predictors s) p = Some mdl
             \<and> map_of (feature_history s) p = Some features \<and> features \<noteq> []"
  then show "predict_process_metrics t s p = forward t mdl (map feature_row features)"
    by (simp add: predict_process_metrics_def)
next
  show "predict_process_metrics t (handle_drift t s) p = None"
    using drift_clears_windows[OF assms, of t p]
    by (auto simp: predict_process_metrics_def split: option.splits)
next
  show "map_of (process_predictors (handle_drift t s)) p = None
            \<longleftrightarrow> map_of (process_predictors s) p = None"
    by (rule drift_known)
next
  fix mdl
  assume "map_of (process_predictors (handle_drift t s)) p = Some mdl"
  then show "reinitialised t (constructed s) (learning_rate s) (handle_drift t s) p"
    using drift_reinitialises[OF assms, of t p] by simp
next
  fix mdl
  assume mdl: "map_of (process_predictors (handle_drift t s)) p = Some mdl"
    and sl: "sequence_length s = 10"
  define s' where "s' = handle_drift t s"
  from mdl have w: "map_of (feature_history s') p = Some []"
    unfolding s'_def using drift_clears_windows[OF assms, of t p] by simp
  have sl': "sequence_length s' = 10"
    using sl by (simp add: s'_def handle_drift_def loop_sequence_length)
  have "predict_process_metrics t (update_process_model t s' p f) p = forward t mdl [feature_row f]"
    using mdl[folded s'_def] w sl'
    by (simp add: update_process_model_def predict_process_metrics_def Let_def map_of_dict_set)
  then show "predict_process_metrics t (update_process_model t (handle_drift t s) p f) p
                    = forward t mdl [feature_row f]"
    unfolding s'_def .
qed

theorem predict_none_until_first_sample_witness:
  "predictor_windows learner_one
   \<and> predict_process_metrics stub_torch learner_one 501 = None
   \<and> map_of (feature_history learner_one) 500 = Some [sample]
   \<and> predict_process_metrics stub_torch learner_one 500 = Some (50, 50, 0)
   \<and> predict_process_metrics stub_torch (handle_drift stub_torch learner_one) 500 = None
   \<and> reinitialised stub_torch 1 0.001 (handle_drift stub_torch learner_one) 500
   \<and> predict_process_metrics stub_torch
       (update_process_model stub_torch (handle_drift stub_torch learner_one) 500 sample) 500
       = Some (50, 50, 0)"
proof -
  have w: "predictor_windows learner_one"
    by (simp add: predictor_windows_def learner_one_eq)
  have u: "map_of (process_predictors learner_one) 501 = None"
    "map_of (process_predictors learner_one) 500 = Some ()"
    "map_of (feature_history learner_one) 500 = Some [sample]"
    "constructed learner_one = 1" "learning_rate learner_one = 0.001"
    "sequence_length learner_one = 10"
    by (simp_all add: learner_one_eq)
  have d: "map_of (process_predictors (handle_drift stub_torch learner_one)) 500 = Some ()"
    by (simp add: drift_one)
  have f: "forward stub_torch () [feature_row sample] = Some (50, 50, 0)"
    by (simp add: stub_torch_def sample_row)
  from predict_none_until_first_sample[OF w, of 501 stub_torch sample] predict_none_until_first_sample[OF w, of 500 stub_torch sample] w u d f
  show ?thesis by simp
qed

end
